theory Spec2Isabelle
  imports Main
begin

section \<open>Strings of the sheet pipeline\<close>

text \<open>
  The pipeline of \<^verbatim>\<open>src/lib/sheetUtils.ts\<close> and of the field-mapping module works on
  JavaScript strings. A string is modelled as a \<^typ>\<open>string\<close>, one \<^typ>\<open>char\<close> per code
  unit, which covers the code units 0 to 255 (Latin-1). On that range
  \<^verbatim>\<open>String.prototype.trim\<close> removes the code units 9 to 13, 32 and 160, and
  \<^verbatim>\<open>toLowerCase\<close> adds 32 to the letters A to Z and to the code units 192 to 222
  other than 215.
\<close>

abbreviation dquote :: char where
  "dquote \<equiv> CHR 0x22"

abbreviation newline :: char where
  "newline \<equiv> CHR 0x0A"

definition isWhiteSpace :: "char \<Rightarrow> bool" where
  "isWhiteSpace c = (of_char c \<in> {9, 10, 11, 12, 13, 32, 160 :: int})"

definition trimStart :: "string \<Rightarrow> string" where
  "trimStart s = dropWhile isWhiteSpace s"

definition trimEnd :: "string \<Rightarrow> string" where
  "trimEnd s = rev (dropWhile isWhiteSpace (rev s))"

definition trim :: "string \<Rightarrow> string" where
  "trim s = trimEnd (trimStart s)"

definition toLowerChar :: "char \<Rightarrow> char" where
  "toLowerChar c =
     (let n = (of_char c :: int)
      in if (65 \<le> n \<and> n \<le> 90) \<or> (192 \<le> n \<and> n \<le> 222 \<and> n \<noteq> 215)
         then char_of (n + 32) else c)"

definition toLowerCase :: "string \<Rightarrow> string" where
  "toLowerCase s = map toLowerChar s"

fun startsWith :: "string \<Rightarrow> string \<Rightarrow> bool" where
  "startsWith s [] = True"
| "startsWith [] (c # t) = False"
| "startsWith (d # s) (c # t) = (d = c \<and> startsWith s t)"

text \<open>\<^verbatim>\<open>s.includes(t)\<close>: \<open>t\<close> occurs in \<open>s\<close> as a contiguous run.\<close>

fun includes_str :: "string \<Rightarrow> string \<Rightarrow> bool" where
  "includes_str [] t = (t = [])"
| "includes_str (c # s) t = (startsWith (c # s) t \<or> includes_str s t)"

text \<open>\<^verbatim>\<open>s.replace(/"/g, '')\<close>: every double quote is removed.\<close>

definition stripQuotes :: "string \<Rightarrow> string" where
  "stripQuotes s = filter (\<lambda>c. c \<noteq> dquote) s"

text \<open>
  \<^verbatim>\<open>s.split(d)\<close> for a one-character separator: the pieces between the separators,
  so the empty string gives one empty piece. The result is never empty; the second
  branch of the \<open>case\<close> is there for totality only.
\<close>

fun split_str :: "char \<Rightarrow> string \<Rightarrow> string list" where
  "split_str d [] = [[]]"
| "split_str d (c # cs) =
     (if c = d then [] # split_str d cs
      else (case split_str d cs of
              piece # pieces \<Rightarrow> (c # piece) # pieces
            | [] \<Rightarrow> [[c]]))"

text \<open>A string in a condition is truthy when it is not empty; \<^verbatim>\<open>null\<close> and
  \<^verbatim>\<open>undefined\<close> (\<open>None\<close>) are falsy.\<close>

fun truthy :: "string option \<Rightarrow> bool" where
  "truthy None = False"
| "truthy (Some s) = (s \<noteq> [])"

text \<open>Decimal digits of a number, as a template literal prints it.\<close>

fun showNat :: "nat \<Rightarrow> string" where
  "showNat n =
     (if n < 10 then [char_of (48 + n)]
      else showNat (n div 10) @ [char_of (48 + n mod 10)])"

text \<open>
  An object used as a dictionary: an association list in insertion order.
  \<^verbatim>\<open>obj[k] = v\<close> overwrites the entry of an existing key in place and appends a new
  key at the end. The order of the list is the order of insertion; that JavaScript
  enumerates integer-like keys first, and that it stores no own property for the key
  \<^verbatim>\<open>__proto__\<close>, is not modelled, and no property below depends on either.
\<close>

type_synonym CampaignData = "(string \<times> string) list"

fun setProp :: "string \<Rightarrow> string \<Rightarrow> CampaignData \<Rightarrow> CampaignData" where
  "setProp k v [] = [(k, v)]"
| "setProp k v (p # ps) = (if fst p = k then (k, v) # ps else p # setProp k v ps)"

text \<open>\<^verbatim>\<open>xs.findIndex(P)\<close>: the first position that satisfies \<open>P\<close>, or \<open>-1\<close>.\<close>

fun findIndexFrom :: "('a \<Rightarrow> bool) \<Rightarrow> 'a list \<Rightarrow> nat \<Rightarrow> int" where
  "findIndexFrom P [] i = - 1"
| "findIndexFrom P (x # xs) i = (if P x then int i else findIndexFrom P xs (Suc i))"

definition findIndex :: "('a \<Rightarrow> bool) \<Rightarrow> 'a list \<Rightarrow> int" where
  "findIndex P xs = findIndexFrom P xs 0"

text \<open>\<^verbatim>\<open>xs[i]\<close>: \<^verbatim>\<open>undefined\<close> (\<open>None\<close>) out of range.\<close>

definition at :: "'a list \<Rightarrow> int \<Rightarrow> 'a option" where
  "at xs i = (if 0 \<le> i \<and> i < int (length xs) then Some (xs ! nat i) else None)"

section \<open>The CSV tokenizer\<close>

text \<open>
  \<^verbatim>\<open>parseCSVRow\<close> scans the row with an index, looking one character ahead. The loop
  is a recursion on the rest of the row from the index on; \<open>vs\<close> is \<^verbatim>\<open>values\<close>,
  \<open>cur\<close> is \<^verbatim>\<open>current\<close> and \<open>q\<close> is \<^verbatim>\<open>inQuotes\<close>. The branches are
  in the order of the source: a double quote followed by a double quote, a double quote,
  a comma outside quotes, any other character.
\<close>

fun parseLoop :: "string \<Rightarrow> string list \<Rightarrow> string \<Rightarrow> bool \<Rightarrow> string list" where
  "parseLoop [] vs cur q = vs @ [trim cur]"
| "parseLoop (c # rest) vs cur q =
     (if c = dquote \<and> (case rest of [] \<Rightarrow> False | nextChar # _ \<Rightarrow> nextChar = dquote)
      then parseLoop (tl rest) vs (cur @ [dquote]) q
      else if c = dquote then parseLoop rest vs cur (\<not> q)
      else if c = CHR '','' \<and> \<not> q then parseLoop rest (vs @ [trim cur]) [] q
      else parseLoop rest vs (cur @ [c]) q)"

definition parseCSVRow :: "string \<Rightarrow> string list" where
  "parseCSVRow row = parseLoop row [] [] False"


section \<open>The schema registry\<close>

datatype fieldType = TText | TDate | TNumber | TSelect | TTextarea | TFile | TPlatforms

record FormField =
  formKey :: string
  displayName :: string
  required :: bool
  ftype :: fieldType
  options :: "string list option"

definition FORM_FIELDS :: "FormField list" where
  "FORM_FIELDS = [
     \<lparr>formKey = ''campaignName'', displayName = ''Campaign Name'', required = True,
      ftype = TText, options = None\<rparr>,
     \<lparr>formKey = ''influencersFollowers'', displayName = ''Influencers Followers'',
      required = True, ftype = TText, options = None\<rparr>,
     \<lparr>formKey = ''campaignType'', displayName = ''Campaign Type'', required = True,
      ftype = TSelect,
      options = Some [''Brand Collaboration'', ''Product Launch'', ''Event Promotion'',
                      ''Content Creation'', ''Other'']\<rparr>,
     \<lparr>formKey = ''startDate'', displayName = ''Start Date'', required = True,
      ftype = TDate, options = None\<rparr>,
     \<lparr>formKey = ''brandName'', displayName = ''Brand Name'', required = True,
      ftype = TText, options = None\<rparr>,
     \<lparr>formKey = ''endDate'', displayName = ''End Date'', required = True,
      ftype = TDate, options = None\<rparr>,
     \<lparr>formKey = ''niche'', displayName = ''Niche'', required = True,
      ftype = TText, options = None\<rparr>,
     \<lparr>formKey = ''priority'', displayName = ''Priority'', required = True,
      ftype = TSelect, options = Some [''High'', ''Medium'', ''Low'']\<rparr>,
     \<lparr>formKey = ''budget'', displayName = ''Budget'', required = True,
      ftype = TNumber, options = None\<rparr>,
     \<lparr>formKey = ''notes'', displayName = ''Notes'', required = False,
      ftype = TTextarea, options = None\<rparr>,
     \<lparr>formKey = ''deliverables'', displayName = ''Deliverables'', required = True,
      ftype = TTextarea, options = None\<rparr>,
     \<lparr>formKey = ''platforms'', displayName = ''Platforms'', required = True,
      ftype = TPlatforms, options = Some [''Instagram'', ''Facebook'', ''YouTube'']\<rparr>,
     \<lparr>formKey = ''attachment'', displayName = ''Attachment'', required = False,
      ftype = TFile, options = None\<rparr>,
     \<lparr>formKey = ''timestamp'', displayName = ''Submission Date'', required = False,
      ftype = TDate, options = None\<rparr>]"

definition EXPECTED_SHEET_HEADERS :: "string list" where
  "EXPECTED_SHEET_HEADERS = map displayName FORM_FIELDS"

definition FIELD_MAPPING :: "(string \<times> string list) list" where
  "FIELD_MAPPING = [
     (''Campaign Name'', [''campaign name'', ''campaign_name'', ''campaignname'', ''campaign'']),
     (''Influencers Followers'', [''influencers followers'', ''influencers_followers'',
        ''influencersfollowers'', ''followers'', ''influencer count'']),
     (''Campaign Type'', [''campaign type'', ''campaign_type'', ''campaigntype'', ''type'']),
     (''Start Date'', [''start date'', ''start_date'', ''startdate'', ''start'',
        ''campaign start'']),
     (''Brand Name'', [''brand name'', ''brand_name'', ''brandname'', ''brand'']),
     (''End Date'', [''end date'', ''end_date'', ''enddate'', ''end'', ''campaign end'']),
     (''Niche'', [''niche'', ''category'', ''industry'']),
     (''Priority'', [''priority'', ''urgency'', ''level'']),
     (''Budget'', [''budget'', ''amount'', ''cost'', ''price'']),
     (''Notes'', [''notes'', ''comments'', ''description'', ''additional info'']),
     (''Deliverables'', [''deliverables'', ''requirements'', ''scope'', ''what to deliver'']),
     (''Platforms'', [''platforms'', ''social media'', ''channels'', ''platform'']),
     (''Attachment'', [''attachment'', ''file'', ''document'', ''upload'']),
     (''Submission Date'', [''submission date'', ''submission_date'', ''submissiondate'',
        ''timestamp'', ''created'', ''date submitted''])]"

section \<open>The header resolver\<close>

text \<open>
  \<^verbatim>\<open>findColumnHeader\<close> looks the field up by its form key and then runs three blocks,
  each returning on a hit. A hit of \<^verbatim>\<open>find\<close> is tested for truthiness
  (\<^verbatim>\<open>if (exactMatch)\<close>, \<^verbatim>\<open>if (match)\<close>), so a hit that is the empty string does
  not return.
\<close>

definition exactTier :: "string \<Rightarrow> string list \<Rightarrow> string option" where
  "exactTier dn sheetHeaders = (if dn \<in> set sheetHeaders then Some dn else None)"

definition caseInsensitiveTier :: "string \<Rightarrow> string list \<Rightarrow> string option" where
  "caseInsensitiveTier dn sheetHeaders =
     (let exactMatch = find (\<lambda>header. toLowerCase header = toLowerCase dn) sheetHeaders
      in if truthy exactMatch then exactMatch else None)"

definition variationHit :: "string \<Rightarrow> string \<Rightarrow> bool" where
  "variationHit variation header =
     (includes_str (toLowerCase header) (toLowerCase variation) \<or>
      includes_str (toLowerCase variation) (toLowerCase header))"

fun variationsLoop :: "string list \<Rightarrow> string list \<Rightarrow> string option" where
  "variationsLoop [] sheetHeaders = None"
| "variationsLoop (variation # rest) sheetHeaders =
     (let match = find (variationHit variation) sheetHeaders
      in if truthy match then match else variationsLoop rest sheetHeaders)"

definition variantTier :: "string \<Rightarrow> string list \<Rightarrow> string option" where
  "variantTier dn sheetHeaders =
     variationsLoop (case map_of FIELD_MAPPING dn of Some vs \<Rightarrow> vs | None \<Rightarrow> []) sheetHeaders"

definition findColumnHeader :: "string \<Rightarrow> string list \<Rightarrow> string option" where
  "findColumnHeader formFieldName sheetHeaders =
     (case find (\<lambda>f. formKey f = formFieldName) FORM_FIELDS of
        None \<Rightarrow> None
      | Some field \<Rightarrow>
          (case exactTier (displayName field) sheetHeaders of
             Some h \<Rightarrow> Some h
           | None \<Rightarrow>
               (case caseInsensitiveTier (displayName field) sheetHeaders of
                  Some h \<Rightarrow> Some h
                | None \<Rightarrow> variantTier (displayName field) sheetHeaders)))"

section \<open>The structure validator\<close>

record Validation =
  isValid :: bool
  missingFields :: "string list"
  extraFields :: "string list"
  suggestions :: "(string \<times> string) list"

text \<open>The first \<^verbatim>\<open>forEach\<close> of \<^verbatim>\<open>validateSheetStructure\<close>, over the form fields;
  \<open>missing\<close> is the array being filled.\<close>

fun missingLoop :: "FormField list \<Rightarrow> string list \<Rightarrow> string list \<Rightarrow> string list" where
  "missingLoop [] sheetHeaders missing = missing"
| "missingLoop (field # rest) sheetHeaders missing =
     (if required field
      then (let found = findColumnHeader (formKey field) sheetHeaders
            in if \<not> truthy found
               then missingLoop rest sheetHeaders (missing @ [displayName field])
               else missingLoop rest sheetHeaders missing)
      else missingLoop rest sheetHeaders missing)"

definition suggestionHit :: "string \<Rightarrow> FormField \<Rightarrow> bool" where
  "suggestionHit header f =
     (includes_str (toLowerCase (displayName f)) (toLowerCase header) \<or>
      includes_str (toLowerCase header) (toLowerCase (displayName f)))"

text \<open>The second \<^verbatim>\<open>forEach\<close>, over the sheet headers; \<open>extra\<close> and \<open>sugg\<close> are the
  array and the object being filled.\<close>

fun extraLoop ::
  "string list \<Rightarrow> string list \<Rightarrow> (string \<times> string) list
     \<Rightarrow> string list \<times> (string \<times> string) list" where
  "extraLoop [] extra sugg = (extra, sugg)"
| "extraLoop (header # rest) extra sugg =
     (let isExpected = list_ex (\<lambda>field. displayName field = header) FORM_FIELDS
      in if \<not> isExpected
         then (case find (suggestionHit header) FORM_FIELDS of
                 Some field \<Rightarrow>
                   extraLoop rest (extra @ [header]) (setProp header (displayName field) sugg)
               | None \<Rightarrow> extraLoop rest (extra @ [header]) sugg)
         else extraLoop rest extra sugg)"

definition validateSheetStructure :: "string list \<Rightarrow> Validation" where
  "validateSheetStructure sheetHeaders =
     (let missing = missingLoop FORM_FIELDS sheetHeaders [];
          (extra, sugg) = extraLoop sheetHeaders [] []
      in \<lparr>isValid = (length missing = 0), missingFields = missing,
          extraFields = extra, suggestions = sugg\<rparr>)"

section \<open>Fetching and normalizing a sheet\<close>

record SheetConfig =
  sheetId :: string
  gid :: "string option"
  name :: string

text \<open>
  What \<^verbatim>\<open>fetch\<close> gives back is an input of the model: either the promise rejects
  with an error that has a message, or it resolves to a response, of which the code
  reads \<^verbatim>\<open>ok\<close>, \<^verbatim>\<open>status\<close>, \<^verbatim>\<open>url\<close> and the body text.
\<close>

record Response =
  ok :: bool
  status :: nat
  url :: string
  body :: string

datatype FetchOutcome = Rejected string | Resolved Response

record FetchResult =
  data :: "CampaignData list"
  headers :: "string list"
  error :: "string option"

definition csvUrl :: "SheetConfig \<Rightarrow> string" where
  "csvUrl config =
     (if truthy (gid config)
      then ''https://docs.google.com/spreadsheets/d/'' @ sheetId config
           @ ''/export?format=csv&gid='' @ the (gid config)
      else ''https://docs.google.com/spreadsheets/d/'' @ sheetId config
           @ ''/export?format=csv'')"

definition isEmailTemplate :: "string \<Rightarrow> bool" where
  "isEmailTemplate h =
     (includes_str (toLowerCase h) ''email template'' \<or>
      includes_str (toLowerCase h) ''emailtemplate'')"

definition isIdColumn :: "string \<Rightarrow> bool" where
  "isIdColumn h =
     (toLowerCase h = ''id'' \<or> toLowerCase h = ''campaign id'' \<or> toLowerCase h = ''record id'')"

definition isSheetId :: "string \<Rightarrow> bool" where
  "isSheetId h =
     (includes_str (toLowerCase h) ''sheet id'' \<or> includes_str (toLowerCase h) ''sheetid'')"

text \<open>The three positions found in the header row; each is \<open>-1\<close> when there is none.\<close>

record Excluded =
  emailTemplateIndex :: int
  idColumnIndex :: int
  sheetIdIndex :: int

definition locate :: "string list \<Rightarrow> Excluded" where
  "locate headerRow =
     \<lparr>emailTemplateIndex = findIndex isEmailTemplate headerRow,
      idColumnIndex = findIndex isIdColumn headerRow,
      sheetIdIndex = findIndex isSheetId headerRow\<rparr>"

text \<open>\<^verbatim>\<open>xs.filter((_, idx) => idx !== emailTemplateIndex && idx !== idColumnIndex &&
  idx !== sheetIdIndex)\<close>, the same filter for the header row and for each row of values.\<close>

definition dropExcluded :: "Excluded \<Rightarrow> string list \<Rightarrow> string list" where
  "dropExcluded ex xs =
     map snd (filter (\<lambda>(idx, _). int idx \<noteq> emailTemplateIndex ex \<and>
                                  int idx \<noteq> idColumnIndex ex \<and>
                                  int idx \<noteq> sheetIdIndex ex)
                     (enumerate 0 xs))"

text \<open>\<^verbatim>\<open>findColumnHeader(header, EXPECTED_SHEET_HEADERS) || header\<close>: the observed
  header goes in as the first argument, the form field name.\<close>

definition mappedHeader :: "string \<Rightarrow> string" where
  "mappedHeader header =
     (let m = findColumnHeader header EXPECTED_SHEET_HEADERS
      in if truthy m then the m else header)"

text \<open>The \<^verbatim>\<open>forEach\<close> over the filtered headers; \<open>idx\<close> is the position,
  \<open>rowData\<close> and \<open>rowKey\<close> are the two variables it updates.
  \<^verbatim>\<open>filteredValues[idx] || ''\<close> is the empty string past the end of the row.\<close>

fun headerLoop ::
  "string list \<Rightarrow> nat \<Rightarrow> string list \<Rightarrow> CampaignData \<Rightarrow> string \<Rightarrow> CampaignData \<times> string" where
  "headerLoop [] idx filteredValues rowData rowKey = (rowData, rowKey)"
| "headerLoop (header # rest) idx filteredValues rowData rowKey =
     (let v = (if idx < length filteredValues then filteredValues ! idx else [])
      in headerLoop rest (Suc idx) filteredValues
           (setProp (mappedHeader header) v rowData) (rowKey @ v))"

text \<open>
  The body of the loop over the data rows, up to the duplicate test: \<open>None\<close> is the
  \<^verbatim>\<open>continue\<close> of an empty row, otherwise the row key and the record.
\<close>

definition rowStep :: "Excluded \<Rightarrow> string list \<Rightarrow> string \<Rightarrow> (string \<times> CampaignData) option" where
  "rowStep ex filteredHeaders row =
     (let vals = map stripQuotes (parseCSVRow row);
          sheetIdValue = (if sheetIdIndex ex \<noteq> - 1 then at vals (sheetIdIndex ex) else Some []);
          filteredValues = dropExcluded ex vals
      in if list_all (\<lambda>v. v = [] \<or> trim v = []) filteredValues then None
         else (let (rowData, rowKey) = headerLoop filteredHeaders 0 filteredValues [] [];
                   rowData' = (if truthy sheetIdValue
                               then setProp ''_sheetId'' (the sheetIdValue) rowData
                               else rowData)
               in Some (rowKey, rowData')))"

text \<open>The loop over the data rows; \<open>seen\<close> is the set of row keys and \<open>parsedData\<close>
  the array of records, both created empty by each call.\<close>

fun dataLoop ::
  "Excluded \<Rightarrow> string list \<Rightarrow> string list \<Rightarrow> string set \<Rightarrow> CampaignData list
     \<Rightarrow> CampaignData list" where
  "dataLoop ex filteredHeaders [] seen parsedData = parsedData"
| "dataLoop ex filteredHeaders (row # rows) seen parsedData =
     (case rowStep ex filteredHeaders row of
        None \<Rightarrow> dataLoop ex filteredHeaders rows seen parsedData
      | Some (rowKey, rowData) \<Rightarrow>
          if rowKey \<notin> seen
          then dataLoop ex filteredHeaders rows (insert rowKey seen) (parsedData @ [rowData])
          else dataLoop ex filteredHeaders rows seen parsedData)"

text \<open>The set \<^verbatim>\<open>seen\<close> as the loop over the data rows leaves it: the same loop,
  keeping only that variable.\<close>

fun seenAfter :: "Excluded \<Rightarrow> string list \<Rightarrow> string list \<Rightarrow> string set \<Rightarrow> string set" where
  "seenAfter ex filteredHeaders [] seen = seen"
| "seenAfter ex filteredHeaders (row # rows) seen =
     (case rowStep ex filteredHeaders row of
        None \<Rightarrow> seenAfter ex filteredHeaders rows seen
      | Some (rowKey, rowData) \<Rightarrow>
          if rowKey \<notin> seen
          then seenAfter ex filteredHeaders rows (insert rowKey seen)
          else seenAfter ex filteredHeaders rows seen)"

text \<open>From the header line and the data lines to the headers and records: the code
  after the rows are known to be non-empty.\<close>

definition normalizeSheet :: "string \<Rightarrow> string list \<Rightarrow> CampaignData list \<times> string list" where
  "normalizeSheet headerLine dataLines =
     (let headerRow = map stripQuotes (parseCSVRow headerLine);
          ex = locate headerRow;
          filteredHeaders = dropExcluded ex headerRow
      in (dataLoop ex filteredHeaders dataLines {} [], filteredHeaders))"

definition nonBlankRows :: "string \<Rightarrow> string list" where
  "nonBlankRows csvText = filter (\<lambda>row. trim row \<noteq> []) (split_str newline csvText)"

text \<open>
  The body of the \<^verbatim>\<open>try\<close> block. A \<^verbatim>\<open>throw new Error(msg)\<close> is \<open>Inl msg\<close>,
  and a rejected \<^verbatim>\<open>fetch\<close> is the \<open>Inl\<close> of its message. Reading the body
  of a response is taken to succeed. The call of \<^verbatim>\<open>validateSheetStructure\<close> only
  feeds the log and is left out.
\<close>

definition tryBlock :: "SheetConfig \<Rightarrow> FetchOutcome \<Rightarrow> string + (CampaignData list \<times> string list)" where
  \<open>tryBlock config outcome =
     (case outcome of
        Rejected msg \<Rightarrow> Inl msg
      | Resolved response \<Rightarrow>
          if \<not> ok response
          then (if status response = 302 \<or> status response = 301 \<or>
                   includes_str (url response) ''accounts.google.com''
                then Inl (''Sheet "'' @ name config
                          @ ''" appears to be private or inaccessible. Please ensure the sheet is publicly viewable.'')
                else Inl (''Failed to fetch data from '' @ name config @ ''. Status: ''
                          @ showNat (status response)))
          else (let csvText = body response
                in if startsWith (trim csvText) ''<HTML>'' \<or> startsWith (trim csvText) ''<!DOCTYPE''
                   then Inl (''Sheet "'' @ name config
                             @ ''" appears to be private. Please make the sheet publicly viewable.'')
                   else (case nonBlankRows csvText of
                           [] \<Rightarrow> Inl (''No data found in '' @ name config)
                         | headerLine # dataLines \<Rightarrow> Inr (normalizeSheet headerLine dataLines))))\<close>

text \<open>The \<^verbatim>\<open>catch\<close> turns every thrown error into a result with its message.\<close>

definition fetchSheetData :: "SheetConfig \<Rightarrow> FetchOutcome \<Rightarrow> FetchResult" where
  "fetchSheetData config outcome =
     (case tryBlock config outcome of
        Inr (parsedData, filteredHeaders) \<Rightarrow>
          \<lparr>data = parsedData, headers = filteredHeaders, error = None\<rparr>
      | Inl msg \<Rightarrow> \<lparr>data = [], headers = [], error = Some msg\<rparr>)"

section \<open>The header resolver in the words of the specification\<close>

text \<open>
  The three tiers as the specification words them, for comparison with
  \<open>findColumnHeader\<close>: an observed header equal to the display name; else the first
  observed header equal to it ignoring case; else, for each alias in declaration order,
  the first observed header whose lowercased text contains the alias or is contained in
  it, the first such header winning. The aliases of a field are the entry of
  \<open>FIELD_MAPPING\<close> under its display name.
\<close>

definition variantNames :: "FormField \<Rightarrow> string list" where
  "variantNames field =
     (case map_of FIELD_MAPPING (displayName field) of Some vs \<Rightarrow> vs | None \<Rightarrow> [])"

fun variant_spec :: "string list \<Rightarrow> string list \<Rightarrow> string option" where
  "variant_spec [] observed = None"
| "variant_spec (alias # rest) observed =
     (case find (\<lambda>h. includes_str (toLowerCase h) alias \<or> includes_str alias (toLowerCase h))
                observed of
        Some h \<Rightarrow> Some h
      | None \<Rightarrow> variant_spec rest observed)"

definition resolve_spec :: "FormField \<Rightarrow> string list \<Rightarrow> string option" where
  "resolve_spec field observed =
     (case find (\<lambda>h. h = displayName field) observed of
        Some h \<Rightarrow> Some h
      | None \<Rightarrow>
          (case find (\<lambda>h. toLowerCase h = toLowerCase (displayName field)) observed of
             Some h \<Rightarrow> Some h
           | None \<Rightarrow> variant_spec (variantNames field) observed))"

section \<open>Properties of the tokenizer\<close>


lemma split_str_pieces: "p \<in> set (split_str d s) \<Longrightarrow> d \<notin> set p"
  by (induction s arbitrary: p) (auto split: list.splits if_splits)

lemma split_str_length: "length (split_str d s) = Suc (count_list s d)"
  by (induction s) (auto split: list.splits)











text \<open>
  C3, as stated, fails: the test for a doubled quote comes first and does not look at
  \<^verbatim>\<open>inQuotes\<close>, so in the row \<^verbatim>\<open>a""b\<close> the first quote, met outside quotes, puts a
  quote character into the field.
\<close>

theorem quote_outside_counterexample:
  \<open>parseCSVRow ''a""b'' = [''a"b''] \<and> parseCSVRow ''a""b'' \<noteq> [''ab'']\<close>
  by code_simp

text \<open>
  C3, amended. A double quote that is not followed by a double quote flips
  \<^verbatim>\<open>inQuotes\<close> (so it turns it on when met outside quotes) and adds nothing to the
  field. A double quote followed by a double quote adds one quote character to the field
  and skips both, in either state, and leaves \<^verbatim>\<open>inQuotes\<close> as it is. The row
  \<^verbatim>\<open>a""b\<close> gives the single field \<^verbatim>\<open>a"b\<close>.
\<close>

theorem quote_step:
  \<open>(\<forall>rest vs cur q. (rest = [] \<or> hd rest \<noteq> dquote) \<longrightarrow>
       parseLoop (dquote # rest) vs cur q = parseLoop rest vs cur (\<not> q))
   \<and> (\<forall>rest vs cur q.
       parseLoop (dquote # dquote # rest) vs cur q = parseLoop rest vs (cur @ [dquote]) q)
   \<and> parseCSVRow ''a""b'' = [''a"b'']\<close>
proof (intro conjI allI impI)
  fix rest :: string and vs cur q
  assume "rest = [] \<or> hd rest \<noteq> dquote"
  then show "parseLoop (dquote # rest) vs cur q = parseLoop rest vs cur (\<not> q)"
    by (cases rest) auto
next
  fix rest :: string and vs cur q
  show "parseLoop (dquote # dquote # rest) vs cur q = parseLoop rest vs (cur @ [dquote]) q"
    by simp
next
  show \<open>parseCSVRow ''a""b'' = [''a"b'']\<close> by code_simp
qed

theorem quote_step_witness:
  \<open>(''b,c'' = [] \<or> hd ''b,c'' \<noteq> dquote)
   \<and> parseLoop (dquote # ''b,c'') [] ''a'' False = parseLoop ''b,c'' [] ''a'' True
   \<and> parseLoop (dquote # ''b,c'') [] ''a'' False = [''ab,c'']\<close>
proof -
  have h: \<open>''b,c'' = [] \<or> hd ''b,c'' \<noteq> dquote\<close> by simp
  have e: \<open>parseLoop ''b,c'' [] ''a'' True = [''ab,c'']\<close> by code_simp
  from quote_step have
    \<open>(''b,c'' = [] \<or> hd ''b,c'' \<noteq> dquote) \<longrightarrow>
       parseLoop (dquote # ''b,c'') [] ''a'' False = parseLoop ''b,c'' [] ''a'' (\<not> False)\<close>
    by blast
  with h e show ?thesis by simp
qed

section \<open>Properties of the header resolver\<close>

text \<open>Facts of the schema, by evaluation: the aliases are lowercase already, the form keys
  are distinct, and the display names are non-empty and distinct even when case is
  ignored.\<close>

lemma aliases_lowercase:
  "\<forall>entry \<in> set FIELD_MAPPING. \<forall>v \<in> set (snd entry). toLowerCase v = v"
  by code_simp

lemma formKeys_distinct: "distinct (map formKey FORM_FIELDS)"
  by code_simp

lemma lower_displayNames_distinct: "distinct (map (\<lambda>f. toLowerCase (displayName f)) FORM_FIELDS)"
  by code_simp

lemma displayNames_nonempty: "\<forall>f \<in> set FORM_FIELDS. displayName f \<noteq> []"
  by code_simp

lemma find_by_key:
  "distinct (map key fs) \<Longrightarrow> f \<in> set fs \<Longrightarrow> find (\<lambda>g. key g = key f) fs = Some f"
  by (induction fs) (auto simp: image_iff)

lemma find_field: "field \<in> set FORM_FIELDS \<Longrightarrow> find (\<lambda>f. formKey f = formKey field) FORM_FIELDS = Some field"
  using find_by_key [OF formKeys_distinct] .

lemma find_mem: "find P xs = Some x \<Longrightarrow> x \<in> set xs \<and> P x"
  by (induction xs) (auto split: if_splits)

lemma exactTier_find: "exactTier dn hs = find (\<lambda>h. h = dn) hs"
  by (induction hs) (auto simp: exactTier_def)

lemma caseInsensitiveTier_find:
  "dn \<noteq> [] \<Longrightarrow>
   caseInsensitiveTier dn hs = find (\<lambda>h. toLowerCase h = toLowerCase dn) hs"
proof (cases "find (\<lambda>h. toLowerCase h = toLowerCase dn) hs")
  case None
  then show ?thesis by (simp add: caseInsensitiveTier_def)
next
  case (Some m)
  assume "dn \<noteq> []"
  moreover have "toLowerCase m = toLowerCase dn" using Some by (auto dest: find_mem)
  ultimately have "m \<noteq> []" by (auto simp: toLowerCase_def)
  then show ?thesis using Some by (simp add: caseInsensitiveTier_def)
qed

lemma variationsLoop_spec:
  "variant_spec vs hs \<noteq> Some [] \<Longrightarrow> \<forall>v \<in> set vs. toLowerCase v = v \<Longrightarrow>
   variationsLoop vs hs = variant_spec vs hs"
proof (induction vs)
  case Nil
  then show ?case by simp
next
  case (Cons v vs)
  have hit: "variationHit v = (\<lambda>h. includes_str (toLowerCase h) v \<or> includes_str v (toLowerCase h))"
    using Cons.prems(2) by (auto simp: variationHit_def fun_eq_iff)
  show ?case
  proof (cases "find (variationHit v) hs")
    case None
    then show ?thesis using Cons hit by simp
  next
    case (Some m)
    then have "variant_spec (v # vs) hs = Some m" using hit by simp
    then have "m \<noteq> []" using Cons.prems(1) by auto
    then show ?thesis using Some hit by simp
  qed
qed

lemma variationsLoop_nonempty: "variationsLoop vs hs \<noteq> Some []"
  by (induction vs) (auto simp: Let_def split: if_splits)

lemma variantNames_lowercase: "\<forall>v \<in> set (variantNames field). toLowerCase v = v"
proof (cases "map_of FIELD_MAPPING (displayName field)")
  case None
  then show ?thesis by (simp add: variantNames_def)
next
  case (Some vs)
  then have "(displayName field, vs) \<in> set FIELD_MAPPING" by (rule map_of_SomeD)
  then show ?thesis using aliases_lowercase Some by (fastforce simp: variantNames_def)
qed

lemma findColumnHeader_spec:
  assumes "field \<in> set FORM_FIELDS" and "resolve_spec field hs \<noteq> Some []"
  shows "findColumnHeader (formKey field) hs = resolve_spec field hs"
proof -
  have dn: "displayName field \<noteq> []" using assms(1) displayNames_nonempty by blast
  have fc: "findColumnHeader (formKey field) hs =
      (case find (\<lambda>h. h = displayName field) hs of
         Some h \<Rightarrow> Some h
       | None \<Rightarrow>
           (case find (\<lambda>h. toLowerCase h = toLowerCase (displayName field)) hs of
              Some h \<Rightarrow> Some h
            | None \<Rightarrow> variantTier (displayName field) hs))"
    using find_field [OF assms(1)]
    by (simp add: findColumnHeader_def exactTier_find caseInsensitiveTier_find [OF dn]
          split: option.splits)
  show ?thesis
  proof (cases "find (\<lambda>h. h = displayName field) hs")
    case (Some h)
    then show ?thesis using fc by (simp add: resolve_spec_def)
  next
    case None
    note n1 = None
    show ?thesis
    proof (cases "find (\<lambda>h. toLowerCase h = toLowerCase (displayName field)) hs")
      case (Some h)
      then show ?thesis using fc n1 by (simp add: resolve_spec_def)
    next
      case None
      then have r: "resolve_spec field hs = variant_spec (variantNames field) hs"
        using n1 by (simp add: resolve_spec_def)
      then have "variant_spec (variantNames field) hs \<noteq> Some []" using assms(2) by simp
      then have "variantTier (displayName field) hs = variant_spec (variantNames field) hs"
        using variationsLoop_spec [OF _ variantNames_lowercase, of field hs]
        by (simp add: variantTier_def variantNames_def)
      then show ?thesis using fc n1 None r by simp
    qed
  qed
qed

lemma findColumnHeader_nonempty: "findColumnHeader k hs \<noteq> Some []"
proof (cases "find (\<lambda>f. formKey f = k) FORM_FIELDS")
  case None
  then show ?thesis by (simp add: findColumnHeader_def)
next
  case (Some f)
  then have "f \<in> set FORM_FIELDS" by (auto dest: find_mem)
  then have dn: "displayName f \<noteq> []" using displayNames_nonempty by blast
  have "exactTier (displayName f) hs \<noteq> Some []" using dn by (auto simp: exactTier_def)
  moreover have "caseInsensitiveTier (displayName f) hs \<noteq> Some []"
    by (auto simp: caseInsensitiveTier_def Let_def split: if_splits)
  moreover have "variantTier (displayName f) hs \<noteq> Some []"
    by (simp add: variantTier_def variationsLoop_nonempty)
  ultimately show ?thesis using Some
    by (auto simp: findColumnHeader_def split: option.splits)
qed

text \<open>
  C4, as stated, fails when an observed header is the empty string: every alias contains
  the empty string, so the first observed header where one string contains the other is
  the empty header, which the words of the specification return; the code tests that hit
  for truthiness, passes the alias over, and ends with no header.
\<close>

theorem resolver_empty_header_counterexample:
  "findColumnHeader ''budget'' ['''', ''Total Budget''] = None
   \<and> resolve_spec \<lparr>formKey = ''budget'', displayName = ''Budget'', required = True,
                    ftype = TNumber, options = None\<rparr> ['''', ''Total Budget''] = Some ''''"
  by code_simp

text \<open>
  C4, amended. The resolver is the three tiers in order, first hit winning: the exact
  match on the display name, then the first header equal to it ignoring case, then,
  alias by alias in declaration order, the first observed header where one lowercased
  string contains the other; except that it never returns the empty header. Whenever
  the three tiers as stated give a non-empty header or none, the resolver gives the
  same, also on a sheet with blank header cells. Resolving Budget against
  \<^verbatim>\<open>["budget", "Notes"]\<close> returns \<^verbatim>\<open>"budget"\<close> from the case-insensitive tier,
  the exact tier having no hit.
\<close>

theorem resolver_three_tiers:
  "(\<forall>field hs. field \<in> set FORM_FIELDS \<longrightarrow> resolve_spec field hs \<noteq> Some [] \<longrightarrow>
       findColumnHeader (formKey field) hs = resolve_spec field hs)
   \<and> (\<forall>k hs. findColumnHeader k hs \<noteq> Some [])
   \<and> exactTier ''Budget'' [''budget'', ''Notes''] = None
   \<and> caseInsensitiveTier ''Budget'' [''budget'', ''Notes''] = Some ''budget''
   \<and> findColumnHeader ''budget'' [''budget'', ''Notes''] = Some ''budget''"
proof (intro conjI allI impI)
  fix field and hs :: "string list"
  assume "field \<in> set FORM_FIELDS" and "resolve_spec field hs \<noteq> Some []"
  then show "findColumnHeader (formKey field) hs = resolve_spec field hs"
    by (rule findColumnHeader_spec)
next
  fix k hs
  show "findColumnHeader k hs \<noteq> Some []" by (rule findColumnHeader_nonempty)
next
  show "exactTier ''Budget'' [''budget'', ''Notes''] = None" by code_simp
next
  show "caseInsensitiveTier ''Budget'' [''budget'', ''Notes''] = Some ''budget''" by code_simp
next
  show "findColumnHeader ''budget'' [''budget'', ''Notes''] = Some ''budget''" by code_simp
qed

theorem resolver_three_tiers_witness:
  "\<lparr>formKey = ''budget'', displayName = ''Budget'', required = True,
     ftype = TNumber, options = None\<rparr> \<in> set FORM_FIELDS
   \<and> resolve_spec \<lparr>formKey = ''budget'', displayName = ''Budget'', required = True,
                    ftype = TNumber, options = None\<rparr> [''Notes'', ''Total Budget'', '''', ''Cost'']
       = Some ''Total Budget''
   \<and> Some ''Total Budget'' \<noteq> Some []
   \<and> findColumnHeader ''budget'' [''Notes'', ''Total Budget'', '''', ''Cost''] = Some ''Total Budget''
   \<and> resolve_spec \<lparr>formKey = ''budget'', displayName = ''Budget'', required = True,
                    ftype = TNumber, options = None\<rparr> (EXPECTED_SHEET_HEADERS @ [''''])
       = Some ''Budget''
   \<and> findColumnHeader ''budget'' (EXPECTED_SHEET_HEADERS @ ['''']) = Some ''Budget''"
proof -
  define f where "f = \<lparr>formKey = ''budget'', displayName = ''Budget'', required = True,
             ftype = TNumber, options = None\<rparr>"
  define hs where "hs = [''Notes'', ''Total Budget'', '''', ''Cost'']"
  note th = resolver_three_tiers
  have k: "formKey f = ''budget''" by (simp add: f_def)
  have m: "f \<in> set FORM_FIELDS" by (simp add: FORM_FIELDS_def f_def)
  have r: "resolve_spec f hs = Some ''Total Budget''" unfolding f_def hs_def by code_simp
  have ne: "Some ''Total Budget'' \<noteq> Some ([] :: string)" by simp
  have n: "resolve_spec f hs \<noteq> Some []" unfolding r by simp
  have c: "findColumnHeader ''budget'' hs = Some ''Total Budget''"
    using th [THEN conjunct1, rule_format, OF m n] unfolding k r .
  have r2: "resolve_spec f (EXPECTED_SHEET_HEADERS @ ['''']) = Some ''Budget''"
    unfolding f_def by code_simp
  have n2: "resolve_spec f (EXPECTED_SHEET_HEADERS @ ['''']) \<noteq> Some []" unfolding r2 by simp
  have c2: "findColumnHeader ''budget'' (EXPECTED_SHEET_HEADERS @ ['''']) = Some ''Budget''"
    using th [THEN conjunct1, rule_format, OF m n2] unfolding k r2 .
  show ?thesis using m r ne c r2 c2 unfolding f_def hs_def by (intro conjI) assumption+
qed

text \<open>
  C8, as stated, fails: against the single observed header \<^verbatim>\<open>"Campaign"\<close> the
  fields Campaign Name and Campaign Type both resolve to it, each through an alias that
  contains \<^verbatim>\<open>campaign\<close>.
\<close>

theorem resolver_shared_header_counterexample:
  "findColumnHeader ''campaignName'' [''Campaign''] = Some ''Campaign''
   \<and> findColumnHeader ''campaignType'' [''Campaign''] = Some ''Campaign''
   \<and> ''campaignName'' \<noteq> ''campaignType''"
  by code_simp

lemma variationsLoop_mem: "variationsLoop vs hs = Some h \<Longrightarrow> h \<in> set hs"
  by (induction vs) (auto simp: Let_def split: if_splits dest: find_mem)

lemma exactTier_Some: "exactTier dn hs = Some h \<Longrightarrow> h = dn \<and> h \<in> set hs"
  by (auto simp: exactTier_def split: if_splits)

lemma caseInsensitiveTier_Some:
  "caseInsensitiveTier dn hs = Some h \<Longrightarrow> toLowerCase h = toLowerCase dn \<and> h \<in> set hs"
  by (auto simp: caseInsensitiveTier_def Let_def split: if_splits dest: find_mem)

lemma findColumnHeader_mem: "findColumnHeader k hs = Some h \<Longrightarrow> h \<in> set hs"
  by (auto simp: findColumnHeader_def variantTier_def split: option.splits
      dest: exactTier_Some caseInsensitiveTier_Some variationsLoop_mem)

lemma tier_lower:
  assumes "findColumnHeader (formKey f) hs = Some h" and "f \<in> set FORM_FIELDS"
    and "exactTier (displayName f) hs \<noteq> None \<or> caseInsensitiveTier (displayName f) hs \<noteq> None"
  shows "toLowerCase h = toLowerCase (displayName f)"
  using assms find_field [OF assms(2)]
  by (auto simp: findColumnHeader_def split: option.splits
      dest: exactTier_Some caseInsensitiveTier_Some)

lemma lower_displayName_inj:
  "f1 \<in> set FORM_FIELDS \<Longrightarrow> f2 \<in> set FORM_FIELDS \<Longrightarrow>
   toLowerCase (displayName f1) = toLowerCase (displayName f2) \<Longrightarrow> f1 = f2"
  using lower_displayNames_distinct by (auto simp: distinct_map dest: inj_onD)

lemma findColumnHeader_variant:
  assumes "findColumnHeader (formKey f) hs = Some h" and "f \<in> set FORM_FIELDS"
    and "exactTier (displayName f) hs = None" and "caseInsensitiveTier (displayName f) hs = None"
  shows "variantTier (displayName f) hs = Some h"
  using assms find_field [OF assms(2)] by (simp add: findColumnHeader_def)

text \<open>
  C8, amended. Each field is resolved on its own, and two distinct fields can resolve to
  the same observed header. What holds: a resolved header is one of the observed headers,
  and when two distinct fields resolve to the same header, at least one of them got it
  from the variant tier, its exact and case-insensitive tiers having no hit. So no two
  distinct fields share a header through the exact or the case-insensitive tier.
\<close>

theorem resolver_shared_header:
  "(\<forall>k hs h. findColumnHeader k hs = Some h \<longrightarrow> h \<in> set hs)
   \<and> (\<forall>f1 f2 hs h.
        f1 \<in> set FORM_FIELDS \<and> f2 \<in> set FORM_FIELDS \<and> f1 \<noteq> f2
        \<and> findColumnHeader (formKey f1) hs = Some h
        \<and> findColumnHeader (formKey f2) hs = Some h
        \<longrightarrow> (exactTier (displayName f1) hs = None
               \<and> caseInsensitiveTier (displayName f1) hs = None
               \<and> variantTier (displayName f1) hs = Some h)
            \<or> (exactTier (displayName f2) hs = None
               \<and> caseInsensitiveTier (displayName f2) hs = None
               \<and> variantTier (displayName f2) hs = Some h))"
proof (intro conjI allI impI)
  fix k hs h
  assume "findColumnHeader k hs = Some h"
  then show "h \<in> set hs" by (rule findColumnHeader_mem)
next
  fix f1 f2 hs h
  assume a: "f1 \<in> set FORM_FIELDS \<and> f2 \<in> set FORM_FIELDS \<and> f1 \<noteq> f2
        \<and> findColumnHeader (formKey f1) hs = Some h
        \<and> findColumnHeader (formKey f2) hs = Some h"
  let ?early = "\<lambda>f. exactTier (displayName f) hs \<noteq> None
                   \<or> caseInsensitiveTier (displayName f) hs \<noteq> None"
  have "\<not> (?early f1 \<and> ?early f2)"
  proof
    assume e: "?early f1 \<and> ?early f2"
    have "toLowerCase h = toLowerCase (displayName f1)"
      using a e by (intro tier_lower [of f1 hs h]) auto
    moreover have "toLowerCase h = toLowerCase (displayName f2)"
      using a e by (intro tier_lower [of f2 hs h]) auto
    ultimately have "f1 = f2" using a lower_displayName_inj by auto
    with a show False by simp
  qed
  then consider "\<not> ?early f1" | "\<not> ?early f2" by blast
  then show "(exactTier (displayName f1) hs = None
               \<and> caseInsensitiveTier (displayName f1) hs = None
               \<and> variantTier (displayName f1) hs = Some h)
            \<or> (exactTier (displayName f2) hs = None
               \<and> caseInsensitiveTier (displayName f2) hs = None
               \<and> variantTier (displayName f2) hs = Some h)"
  proof cases
    case 1
    then show ?thesis using a findColumnHeader_variant [of f1 hs h] by auto
  next
    case 2
    then show ?thesis using a findColumnHeader_variant [of f2 hs h] by auto
  qed
qed

theorem resolver_shared_header_witness:
  "findColumnHeader ''campaignName'' [''Campaign''] = Some ''Campaign''
   \<and> findColumnHeader ''campaignType'' [''Campaign''] = Some ''Campaign''
   \<and> ''Campaign'' \<in> set [''Campaign'']
   \<and> ((exactTier ''Campaign Name'' [''Campaign''] = None
        \<and> caseInsensitiveTier ''Campaign Name'' [''Campaign''] = None
        \<and> variantTier ''Campaign Name'' [''Campaign''] = Some ''Campaign'')
      \<or> (exactTier ''Campaign Type'' [''Campaign''] = None
        \<and> caseInsensitiveTier ''Campaign Type'' [''Campaign''] = None
        \<and> variantTier ''Campaign Type'' [''Campaign''] = Some ''Campaign''))"
proof -
  define f1 where "f1 = \<lparr>formKey = ''campaignName'', displayName = ''Campaign Name'',
      required = True, ftype = TText, options = None\<rparr>"
  define f2 where "f2 = \<lparr>formKey = ''campaignType'', displayName = ''Campaign Type'',
      required = True, ftype = TSelect,
      options = Some [''Brand Collaboration'', ''Product Launch'', ''Event Promotion'',
                      ''Content Creation'', ''Other'']\<rparr>"
  have k: "formKey f1 = ''campaignName''" "formKey f2 = ''campaignType''"
    "displayName f1 = ''Campaign Name''" "displayName f2 = ''Campaign Type''"
    by (simp_all add: f1_def f2_def)
  have m1: "f1 \<in> set FORM_FIELDS" by (simp add: FORM_FIELDS_def f1_def)
  have m2: "f2 \<in> set FORM_FIELDS" by (simp add: FORM_FIELDS_def f2_def)
  have ne: "f1 \<noteq> f2" by (simp add: f1_def f2_def)
  have r1: "findColumnHeader ''campaignName'' [''Campaign''] = Some ''Campaign''" by code_simp
  have r2: "findColumnHeader ''campaignType'' [''Campaign''] = Some ''Campaign''" by code_simp
  have c1: "''Campaign'' \<in> set [''Campaign'']"
    using resolver_shared_header [THEN conjunct1, rule_format, OF r1] .
  have c2: "(exactTier (displayName f1) [''Campaign''] = None
               \<and> caseInsensitiveTier (displayName f1) [''Campaign''] = None
               \<and> variantTier (displayName f1) [''Campaign''] = Some ''Campaign'')
            \<or> (exactTier (displayName f2) [''Campaign''] = None
               \<and> caseInsensitiveTier (displayName f2) [''Campaign''] = None
               \<and> variantTier (displayName f2) [''Campaign''] = Some ''Campaign'')"
  proof (rule resolver_shared_header [THEN conjunct2, rule_format, of f1 f2])
    show "f1 \<in> set FORM_FIELDS \<and> f2 \<in> set FORM_FIELDS \<and> f1 \<noteq> f2
        \<and> findColumnHeader (formKey f1) [''Campaign''] = Some ''Campaign''
        \<and> findColumnHeader (formKey f2) [''Campaign''] = Some ''Campaign''"
      unfolding k using m1 m2 ne r1 r2 by (intro conjI)
  qed
  show ?thesis using r1 r2 c1 c2 unfolding k by (intro conjI)
qed

section \<open>Properties of the structure validator\<close>

text \<open>The second loop appends to \<open>extra\<close> exactly the headers that no field has as its
  display name, in the order of the headers.\<close>

lemma extraLoop_fst:
  "fst (extraLoop hs extra sugg) =
     extra @ filter (\<lambda>h. \<not> list_ex (\<lambda>field. displayName field = h) FORM_FIELDS) hs"
  by (induction hs arbitrary: extra sugg) (auto simp: Let_def split: option.splits)

lemma extraFields_filter:
  "extraFields (validateSheetStructure hs) =
     filter (\<lambda>h. h \<notin> displayName ` set FORM_FIELDS) hs"
proof -
  have "(\<lambda>h. \<not> list_ex (\<lambda>field. displayName field = h) FORM_FIELDS)
          = (\<lambda>h. h \<notin> displayName ` set FORM_FIELDS)"
    by (auto simp: list_ex_iff fun_eq_iff)
  then show ?thesis
    using extraLoop_fst [of hs "[]" "[]"]
    by (cases "extraLoop hs [] []") (simp add: validateSheetStructure_def Let_def)
qed

text \<open>
  C7. \<^verbatim>\<open>extraFields\<close> is the list of the observed headers that are not equal, case
  and all, to a display name of the schema. For the headers Campaign Name, Brand Name,
  Extra Col it is \<^verbatim>\<open>["Extra Col"]\<close>, and \<^verbatim>\<open>missingFields\<close> is every required
  display name other than Campaign Name and Brand Name. A header that differs in case or
  that is matched through an alias is still extra: \<^verbatim>\<open>campaign name\<close> and
  \<^verbatim>\<open>Total Budget\<close> resolve for Campaign Name and Budget and are both listed.
\<close>

theorem validate_extraFields:
  "(\<forall>hs. extraFields (validateSheetStructure hs)
            = filter (\<lambda>h. h \<notin> displayName ` set FORM_FIELDS) hs)
   \<and> extraFields (validateSheetStructure [''Campaign Name'', ''Brand Name'', ''Extra Col''])
       = [''Extra Col'']
   \<and> missingFields (validateSheetStructure [''Campaign Name'', ''Brand Name'', ''Extra Col''])
       = map displayName
           (filter (\<lambda>f. required f \<and> displayName f \<noteq> ''Campaign Name''
                                    \<and> displayName f \<noteq> ''Brand Name'') FORM_FIELDS)
   \<and> findColumnHeader ''campaignName'' [''campaign name'', ''Total Budget'']
       = Some ''campaign name''
   \<and> findColumnHeader ''budget'' [''campaign name'', ''Total Budget''] = Some ''Total Budget''
   \<and> extraFields (validateSheetStructure [''campaign name'', ''Total Budget''])
       = [''campaign name'', ''Total Budget'']"
proof (intro conjI allI)
  fix hs
  show "extraFields (validateSheetStructure hs)
          = filter (\<lambda>h. h \<notin> displayName ` set FORM_FIELDS) hs"
    by (rule extraFields_filter)
next
  show "extraFields (validateSheetStructure [''Campaign Name'', ''Brand Name'', ''Extra Col''])
       = [''Extra Col'']" by code_simp
next
  show "missingFields (validateSheetStructure [''Campaign Name'', ''Brand Name'', ''Extra Col''])
       = map displayName
           (filter (\<lambda>f. required f \<and> displayName f \<noteq> ''Campaign Name''
                                    \<and> displayName f \<noteq> ''Brand Name'') FORM_FIELDS)"
    by code_simp
next
  show "findColumnHeader ''campaignName'' [''campaign name'', ''Total Budget'']
       = Some ''campaign name''" by code_simp
next
  show "findColumnHeader ''budget'' [''campaign name'', ''Total Budget''] = Some ''Total Budget''"
    by code_simp
next
  show "extraFields (validateSheetStructure [''campaign name'', ''Total Budget''])
       = [''campaign name'', ''Total Budget'']" by code_simp
qed

theorem validate_extraFields_witness:
  "extraFields (validateSheetStructure [''Budget'', ''budget'', ''Cost'', ''Notes''])
     = [''budget'', ''Cost'']"
proof -
  have "filter (\<lambda>h. h \<notin> displayName ` set FORM_FIELDS) [''Budget'', ''budget'', ''Cost'', ''Notes'']
          = [''budget'', ''Cost'']"
    by code_simp
  then show ?thesis
    using validate_extraFields [THEN conjunct1, rule_format, of "[''Budget'', ''budget'', ''Cost'', ''Notes'']"]
    by (simp only:)
qed

section \<open>Properties of the row normalizer\<close>

text \<open>
  C6. The header row \<^verbatim>\<open>Campaign Name,Email Template,Sheet ID\<close> with the one data row
  \<^verbatim>\<open>Foo,<template>,abc123\<close> gives the headers \<^verbatim>\<open>["Campaign Name"]\<close> and one
  record, with Campaign Name \<^verbatim>\<open>Foo\<close> and the sheet id under \<^verbatim>\<open>_sheetId\<close>; the
  email-template and sheet-id columns are not among the headers. The same holds for the
  whole of \<^verbatim>\<open>fetchSheetData\<close> on a response with these two lines as its body.
\<close>

theorem normalize_example:
  "normalizeSheet ''Campaign Name,Email Template,Sheet ID'' [''Foo,<template>,abc123'']
     = ([[(''Campaign Name'', ''Foo''), (''_sheetId'', ''abc123'')]], [''Campaign Name''])
   \<and> fetchSheetData \<lparr>sheetId = ''1Vd0'', gid = Some ''0'', name = ''View Sheet''\<rparr>
        (Resolved \<lparr>ok = True, status = 200, url = csvUrl \<lparr>sheetId = ''1Vd0'', gid = Some ''0'', name = ''View Sheet''\<rparr>,
                   body = ''Campaign Name,Email Template,Sheet ID'' @ [newline]
                          @ ''Foo,<template>,abc123'' @ [newline]\<rparr>)
     = \<lparr>data = [[(''Campaign Name'', ''Foo''), (''_sheetId'', ''abc123'')]],
        headers = [''Campaign Name''], error = None\<rparr>"
  by code_simp

text \<open>What the mapping call of the row loop computes: a header that is spelled exactly
  like a form key becomes the display name of that field, and every other header stays
  as it is.\<close>

lemma mappedHeader_formKey:
  "mappedHeader h =
     (case find (\<lambda>f. formKey f = h) FORM_FIELDS of Some f \<Rightarrow> displayName f | None \<Rightarrow> h)"
proof (cases "find (\<lambda>f. formKey f = h) FORM_FIELDS")
  case None
  then show ?thesis by (simp add: mappedHeader_def findColumnHeader_def)
next
  case (Some f)
  then have f: "f \<in> set FORM_FIELDS" by (auto dest: find_mem)
  then have "displayName f \<in> set EXPECTED_SHEET_HEADERS"
    by (simp add: EXPECTED_SHEET_HEADERS_def)
  then have "findColumnHeader h EXPECTED_SHEET_HEADERS = Some (displayName f)"
    using Some by (simp add: findColumnHeader_def exactTier_def)
  moreover have "displayName f \<noteq> []" using f displayNames_nonempty by blast
  ultimately show ?thesis using Some by (simp add: mappedHeader_def)
qed

text \<open>
  C2, at the failing input. The resolver resolves the observed header
  \<^verbatim>\<open>start_date\<close> for the field Start Date. In the row loop the observed header is
  passed to \<^verbatim>\<open>findColumnHeader\<close> as the form field name, with the canonical display
  names as the sheet headers, so no field is found for it and the record keeps the key
  \<^verbatim>\<open>start_date\<close>.
\<close>

theorem mappedHeader_failing_input:
  "findColumnHeader ''startDate'' [''start_date''] = Some ''start_date''
   \<and> mappedHeader ''start_date'' = ''start_date''
   \<and> normalizeSheet ''start_date'' [''2024-01-01'']
       = ([[(''start_date'', ''2024-01-01'')]], [''start_date''])"
  by code_simp

section \<open>Properties of the fetch boundary\<close>

lemma fetch_error_empty:
  "error (fetchSheetData config outcome) \<noteq> None \<Longrightarrow>
   data (fetchSheetData config outcome) = [] \<and> headers (fetchSheetData config outcome) = []"
  by (auto simp: fetchSheetData_def split: sum.splits prod.splits)

text \<open>
  C9. \<^verbatim>\<open>fetchSheetData\<close> returns a result on every outcome of the fetch. A rejected
  fetch, a response that is not ok (a redirect status or an authentication address:
  access denied; any other status: the status in the message), a body that starts with
  an HTML marker, and a body with no non-blank line each give a result whose error is the
  message of that failure and whose records and headers are both empty. Whenever the
  error is set, both lists are empty.
\<close>

theorem fetch_failure_result:
  \<open>(\<forall>config msg.
       fetchSheetData config (Rejected msg) = \<lparr>data = [], headers = [], error = Some msg\<rparr>)
   \<and> (\<forall>config response.
       \<not> ok response \<and> (status response = 302 \<or> status response = 301
                          \<or> includes_str (url response) ''accounts.google.com'') \<longrightarrow>
       fetchSheetData config (Resolved response)
         = \<lparr>data = [], headers = [],
            error = Some (''Sheet "'' @ name config
              @ ''" appears to be private or inaccessible. Please ensure the sheet is publicly viewable.'')\<rparr>)
   \<and> (\<forall>config response.
       \<not> ok response \<and> \<not> (status response = 302 \<or> status response = 301
                            \<or> includes_str (url response) ''accounts.google.com'') \<longrightarrow>
       fetchSheetData config (Resolved response)
         = \<lparr>data = [], headers = [],
            error = Some (''Failed to fetch data from '' @ name config @ ''. Status: ''
                          @ showNat (status response))\<rparr>)
   \<and> (\<forall>config response.
       ok response \<and> (startsWith (trim (body response)) ''<HTML>''
                       \<or> startsWith (trim (body response)) ''<!DOCTYPE'') \<longrightarrow>
       fetchSheetData config (Resolved response)
         = \<lparr>data = [], headers = [],
            error = Some (''Sheet "'' @ name config
              @ ''" appears to be private. Please make the sheet publicly viewable.'')\<rparr>)
   \<and> (\<forall>config response.
       ok response \<and> \<not> (startsWith (trim (body response)) ''<HTML>''
                         \<or> startsWith (trim (body response)) ''<!DOCTYPE'')
       \<and> nonBlankRows (body response) = [] \<longrightarrow>
       fetchSheetData config (Resolved response)
         = \<lparr>data = [], headers = [], error = Some (''No data found in '' @ name config)\<rparr>)
   \<and> (\<forall>config outcome.
       error (fetchSheetData config outcome) \<noteq> None \<longrightarrow>
       data (fetchSheetData config outcome) = [] \<and> headers (fetchSheetData config outcome) = [])\<close>
proof (intro conjI allI impI)
  fix config :: SheetConfig and msg
  show "fetchSheetData config (Rejected msg) = \<lparr>data = [], headers = [], error = Some msg\<rparr>"
    by (simp add: fetchSheetData_def tryBlock_def)
next
  fix config :: SheetConfig and response :: Response
  assume "\<not> ok response \<and> (status response = 302 \<or> status response = 301
                          \<or> includes_str (url response) ''accounts.google.com'')"
  then show \<open>fetchSheetData config (Resolved response)
         = \<lparr>data = [], headers = [],
            error = Some (''Sheet "'' @ name config
              @ ''" appears to be private or inaccessible. Please ensure the sheet is publicly viewable.'')\<rparr>\<close>
    by (simp add: fetchSheetData_def tryBlock_def)
next
  fix config :: SheetConfig and response :: Response
  assume "\<not> ok response \<and> \<not> (status response = 302 \<or> status response = 301
                            \<or> includes_str (url response) ''accounts.google.com'')"
  then show "fetchSheetData config (Resolved response)
         = \<lparr>data = [], headers = [],
            error = Some (''Failed to fetch data from '' @ name config @ ''. Status: ''
                          @ showNat (status response))\<rparr>"
    by (simp add: fetchSheetData_def tryBlock_def del: showNat.simps)
next
  fix config :: SheetConfig and response :: Response
  assume "ok response \<and> (startsWith (trim (body response)) ''<HTML>''
                       \<or> startsWith (trim (body response)) ''<!DOCTYPE'')"
  then show \<open>fetchSheetData config (Resolved response)
         = \<lparr>data = [], headers = [],
            error = Some (''Sheet "'' @ name config
              @ ''" appears to be private. Please make the sheet publicly viewable.'')\<rparr>\<close>
    by (simp add: fetchSheetData_def tryBlock_def Let_def)
next
  fix config :: SheetConfig and response :: Response
  assume "ok response \<and> \<not> (startsWith (trim (body response)) ''<HTML>''
                         \<or> startsWith (trim (body response)) ''<!DOCTYPE'')
       \<and> nonBlankRows (body response) = []"
  then show "fetchSheetData config (Resolved response)
         = \<lparr>data = [], headers = [], error = Some (''No data found in '' @ name config)\<rparr>"
    by (simp add: fetchSheetData_def tryBlock_def Let_def)
next
  fix config outcome
  assume "error (fetchSheetData config outcome) \<noteq> None"
  then show "data (fetchSheetData config outcome) = []" by (simp add: fetch_error_empty)
next
  fix config outcome
  assume "error (fetchSheetData config outcome) \<noteq> None"
  then show "headers (fetchSheetData config outcome) = []" by (simp add: fetch_error_empty)
qed

theorem fetch_failure_result_witness:
  \<open>fetchSheetData \<lparr>sheetId = ''1Vd0'', gid = None, name = ''View Sheet''\<rparr>
        (Rejected ''Failed to fetch'')
      = \<lparr>data = [], headers = [], error = Some ''Failed to fetch''\<rparr>
   \<and> \<not> ok \<lparr>ok = False, status = 302, url = [], body = []\<rparr>
   \<and> status \<lparr>ok = False, status = 302, url = [], body = []\<rparr> = 302
   \<and> fetchSheetData \<lparr>sheetId = ''1Vd0'', gid = None, name = ''View Sheet''\<rparr>
        (Resolved \<lparr>ok = False, status = 302, url = [], body = []\<rparr>)
      = \<lparr>data = [], headers = [],
         error = Some ''Sheet "View Sheet" appears to be private or inaccessible. Please ensure the sheet is publicly viewable.''\<rparr>
   \<and> fetchSheetData \<lparr>sheetId = ''1Vd0'', gid = None, name = ''View Sheet''\<rparr>
        (Resolved \<lparr>ok = False, status = 500, url = [], body = []\<rparr>)
      = \<lparr>data = [], headers = [],
         error = Some ''Failed to fetch data from View Sheet. Status: 500''\<rparr>
   \<and> fetchSheetData \<lparr>sheetId = ''1Vd0'', gid = None, name = ''View Sheet''\<rparr>
        (Resolved \<lparr>ok = True, status = 200, url = [], body = ''  <!DOCTYPE html><title>Sign in</title>''\<rparr>)
      = \<lparr>data = [], headers = [],
         error = Some ''Sheet "View Sheet" appears to be private. Please make the sheet publicly viewable.''\<rparr>
   \<and> fetchSheetData \<lparr>sheetId = ''1Vd0'', gid = None, name = ''View Sheet''\<rparr>
        (Resolved \<lparr>ok = True, status = 200, url = [], body = [newline, CHR '' '', newline]\<rparr>)
      = \<lparr>data = [], headers = [], error = Some ''No data found in View Sheet''\<rparr>
   \<and> data (fetchSheetData \<lparr>sheetId = ''1Vd0'', gid = None, name = ''View Sheet''\<rparr>
        (Resolved \<lparr>ok = False, status = 302, url = [], body = []\<rparr>)) = []
   \<and> headers (fetchSheetData \<lparr>sheetId = ''1Vd0'', gid = None, name = ''View Sheet''\<rparr>
        (Resolved \<lparr>ok = False, status = 302, url = [], body = []\<rparr>)) = []\<close>
proof -
  define config where "config = \<lparr>sheetId = ''1Vd0'', gid = None, name = ''View Sheet''\<rparr>"
  define r302 where "r302 = \<lparr>ok = False, status = 302, url = [], body = []\<rparr>"
  define r500 where "r500 = \<lparr>ok = False, status = 500, url = [], body = []\<rparr>"
  define rhtml where
    "rhtml = \<lparr>ok = True, status = 200, url = [], body = ''  <!DOCTYPE html><title>Sign in</title>''\<rparr>"
  define rempty where
    "rempty = \<lparr>ok = True, status = 200, url = [], body = [newline, CHR '' '', newline]\<rparr>"
  note th = fetch_failure_result
  have n: "name config = ''View Sheet''" by (simp add: config_def)
  have c0: "fetchSheetData config (Rejected ''Failed to fetch'')
              = \<lparr>data = [], headers = [], error = Some ''Failed to fetch''\<rparr>"
    by (rule th [THEN conjunct1, rule_format])
  have h1: "\<not> ok r302 \<and> (status r302 = 302 \<or> status r302 = 301
                           \<or> includes_str (url r302) ''accounts.google.com'')"
    by (simp add: r302_def)
  have c1: \<open>fetchSheetData config (Resolved r302)
      = \<lparr>data = [], headers = [],
         error = Some ''Sheet "View Sheet" appears to be private or inaccessible. Please ensure the sheet is publicly viewable.''\<rparr>\<close>
    using th [THEN conjunct2, THEN conjunct1, rule_format, OF h1, of config]
    unfolding n by simp
  have h2: "\<not> ok r500 \<and> \<not> (status r500 = 302 \<or> status r500 = 301
                           \<or> includes_str (url r500) ''accounts.google.com'')"
    unfolding r500_def by code_simp
  have s500: "showNat (status r500) = ''500''" unfolding r500_def by code_simp
  have c2: "fetchSheetData config (Resolved r500)
      = \<lparr>data = [], headers = [],
         error = Some ''Failed to fetch data from View Sheet. Status: 500''\<rparr>"
    using th [THEN conjunct2, THEN conjunct2, THEN conjunct1, rule_format, OF h2, of config]
    unfolding n s500 by simp
  have h3: "ok rhtml \<and> (startsWith (trim (body rhtml)) ''<HTML>''
                         \<or> startsWith (trim (body rhtml)) ''<!DOCTYPE'')"
    unfolding rhtml_def by code_simp
  have c3: \<open>fetchSheetData config (Resolved rhtml)
      = \<lparr>data = [], headers = [],
         error = Some ''Sheet "View Sheet" appears to be private. Please make the sheet publicly viewable.''\<rparr>\<close>
    using th [THEN conjunct2, THEN conjunct2, THEN conjunct2, THEN conjunct1, rule_format,
        OF h3, of config]
    unfolding n by simp
  have h4: "ok rempty \<and> \<not> (startsWith (trim (body rempty)) ''<HTML>''
                         \<or> startsWith (trim (body rempty)) ''<!DOCTYPE'')
            \<and> nonBlankRows (body rempty) = []"
    unfolding rempty_def by code_simp
  have c4: "fetchSheetData config (Resolved rempty)
      = \<lparr>data = [], headers = [], error = Some ''No data found in View Sheet''\<rparr>"
    using th [THEN conjunct2, THEN conjunct2, THEN conjunct2, THEN conjunct2, THEN conjunct1,
        rule_format, OF h4, of config]
    unfolding n by simp
  have h5: "error (fetchSheetData config (Resolved r302)) \<noteq> None"
    unfolding c1 by simp
  have c5: "data (fetchSheetData config (Resolved r302)) = []
            \<and> headers (fetchSheetData config (Resolved r302)) = []"
    by (rule th [THEN conjunct2, THEN conjunct2, THEN conjunct2, THEN conjunct2, THEN conjunct2,
        rule_format, OF h5])
  have k: "\<not> ok r302" "status r302 = 302" by (simp_all add: r302_def)
  show ?thesis
    using c0 k c1 c2 c3 c4 c5
    unfolding config_def r302_def r500_def rhtml_def rempty_def
    by (intro conjI) (erule conjunct1 conjunct2 | assumption)+
qed

section \<open>Deduplication of the rows\<close>

text \<open>The row key that the loop over the headers builds is the concatenation of the
  values at the header positions, a missing value counting as the empty string.\<close>

lemma headerLoop_key:
  "snd (headerLoop hs idx fv rd rk) =
     rk @ concat (map (\<lambda>i. if i < length fv then fv ! i else []) [idx..<idx + length hs])"
proof (induction hs arbitrary: idx rd rk)
  case Nil
  then show ?case by simp
next
  case (Cons h hs)
  have "[idx..<idx + length (h # hs)] = idx # [Suc idx..<Suc idx + length hs]"
    using upt_conv_Cons [of idx "idx + length (h # hs)"] by simp
  then show ?case using Cons.IH [of "Suc idx"] by (simp add: Let_def)
qed

lemma rowStep_key:
  assumes "rowStep ex fh row = Some (k, d)"
  shows "k = concat (map (\<lambda>i. if i < length (dropExcluded ex (map stripQuotes (parseCSVRow row)))
                               then dropExcluded ex (map stripQuotes (parseCSVRow row)) ! i
                               else []) [0..<length fh])"
  using assms headerLoop_key [of fh 0 "dropExcluded ex (map stripQuotes (parseCSVRow row))" "[]" "[]"]
  by (auto simp: rowStep_def Let_def split: if_splits prod.splits)

lemma rowStep_same_values:
  assumes "dropExcluded ex (map stripQuotes (parseCSVRow r1))
             = dropExcluded ex (map stripQuotes (parseCSVRow r2))"
  shows "map_option fst (rowStep ex fh r1) = map_option fst (rowStep ex fh r2)"
  using assms by (auto simp: rowStep_def Let_def split: if_splits prod.splits)

text \<open>The loop over the data rows, cut in two: the second part starts from the
  \<^verbatim>\<open>seen\<close> and the records that the first part leaves.\<close>

lemma in_seenAfter:
  "k \<in> seenAfter ex fh rows seen \<longleftrightarrow>
     k \<in> seen \<or> (\<exists>r \<in> set rows. \<exists>d. rowStep ex fh r = Some (k, d))"
  by (induction rows arbitrary: seen) (auto split: option.splits)

lemma dataLoop_append:
  "dataLoop ex fh (xs @ ys) seen parsed =
     dataLoop ex fh ys (seenAfter ex fh xs seen) (dataLoop ex fh xs seen parsed)"
  by (induction xs arbitrary: seen parsed) (auto split: option.splits)

lemma dataLoop_acc:
  "dataLoop ex fh rows seen parsed = parsed @ dataLoop ex fh rows seen []"
proof (induction rows arbitrary: seen parsed)
  case Nil
  then show ?case by simp
next
  case (Cons x xs)
  show ?case
  proof (cases "rowStep ex fh x")
    case None
    then show ?thesis using Cons.IH [of seen parsed] by simp
  next
    case (Some p)
    obtain k d where p: "p = (k, d)" by (cases p)
    show ?thesis
      using Some p Cons.IH [of seen parsed] Cons.IH [of "insert k seen" "parsed @ [d]"]
        Cons.IH [of "insert k seen" "[d]"]
      by simp
  qed
qed

lemma dataLoop_all_seen:
  "\<forall>r \<in> set rows. \<forall>k d. rowStep ex fh r = Some (k, d) \<longrightarrow> k \<in> seen \<Longrightarrow>
   dataLoop ex fh rows seen parsed = parsed"
  by (induction rows) (auto split: option.splits)

text \<open>What holds of the loop: a row with the same retained values as an earlier row adds
  nothing, and a row whose key no earlier row has is kept.\<close>

lemma dataLoop_later_duplicate:
  assumes "dropExcluded ex (map stripQuotes (parseCSVRow r1))
             = dropExcluded ex (map stripQuotes (parseCSVRow r2))"
  shows "dataLoop ex fh (xs @ r1 # ys @ r2 # zs) {} [] = dataLoop ex fh (xs @ r1 # ys @ zs) {} []"
proof -
  let ?pre = "xs @ r1 # ys"
  have same: "map_option fst (rowStep ex fh r1) = map_option fst (rowStep ex fh r2)"
    using assms by (rule rowStep_same_values)
  have step: "dataLoop ex fh (r2 # zs) (seenAfter ex fh ?pre {}) P
                = dataLoop ex fh zs (seenAfter ex fh ?pre {}) P" for P
  proof (cases "rowStep ex fh r2")
    case None
    then show ?thesis by simp
  next
    case (Some p)
    obtain k d where p: "p = (k, d)" by (cases p)
    from Some p same obtain d1 where "rowStep ex fh r1 = Some (k, d1)" by auto
    then have "k \<in> seenAfter ex fh ?pre {}" unfolding in_seenAfter by auto
    then show ?thesis using Some p by simp
  qed
  have "dataLoop ex fh (?pre @ r2 # zs) {} [] = dataLoop ex fh (?pre @ zs) {} []"
    unfolding dataLoop_append [of ex fh ?pre] using step by simp
  then show ?thesis by simp
qed

lemma dataLoop_first_kept:
  assumes "rowStep ex fh r1 = Some (k, d)"
    and "\<forall>r \<in> set xs. map_option fst (rowStep ex fh r) \<noteq> Some k"
  shows "d \<in> set (dataLoop ex fh (xs @ r1 # rest) {} [])"
proof -
  have "k \<notin> seenAfter ex fh xs {}" unfolding in_seenAfter using assms(2) by force
  then have "dataLoop ex fh (xs @ r1 # rest) {} []
        = dataLoop ex fh rest (insert k (seenAfter ex fh xs {})) (dataLoop ex fh xs {} [] @ [d])"
    unfolding dataLoop_append [of ex fh xs] using assms(1) by simp
  then show ?thesis
    using dataLoop_acc [of ex fh rest "insert k (seenAfter ex fh xs {})" "dataLoop ex fh xs {} [] @ [d]"]
    by simp
qed

text \<open>
  C5, at the failing input. The row key is the values written one after the other with
  nothing between them, so rows with different values can have the same key. Under the
  header row \<^verbatim>\<open>A,B\<close> the rows \<^verbatim>\<open>ab,c\<close> and \<^verbatim>\<open>a,bc\<close> both have the
  key \<^verbatim>\<open>abc\<close>. Of the data rows \<^verbatim>\<open>ab,c\<close>, \<^verbatim>\<open>a,bc\<close>, \<^verbatim>\<open>a,bc\<close> the
  last two have the same values in every retained column and neither is kept; without
  the first row, the first of them is kept.
\<close>

theorem rowKey_collision_failing_input:
  "normalizeSheet ''A,B'' [''ab,c'', ''a,bc'', ''a,bc'']
     = ([[(''A'', ''ab''), (''B'', ''c'')]], [''A'', ''B''])
   \<and> normalizeSheet ''A,B'' [''a,bc'', ''a,bc'']
     = ([[(''A'', ''a''), (''B'', ''bc'')]], [''A'', ''B''])
   \<and> locate (map stripQuotes (parseCSVRow ''A,B''))
     = \<lparr>emailTemplateIndex = - 1, idColumnIndex = - 1, sheetIdIndex = - 1\<rparr>
   \<and> rowStep \<lparr>emailTemplateIndex = - 1, idColumnIndex = - 1, sheetIdIndex = - 1\<rparr>
        [''A'', ''B''] ''ab,c'' = Some (''abc'', [(''A'', ''ab''), (''B'', ''c'')])
   \<and> rowStep \<lparr>emailTemplateIndex = - 1, idColumnIndex = - 1, sheetIdIndex = - 1\<rparr>
        [''A'', ''B''] ''a,bc'' = Some (''abc'', [(''A'', ''a''), (''B'', ''bc'')])"
  by code_simp

section \<open>The sheet id of a record\<close>

text \<open>The keys of a record: those that the loop over the headers writes are the mapped
  headers, and a mapped header is \<^verbatim>\<open>_sheetId\<close> only when the header itself is.\<close>

lemma setProp_keys: "fst ` set (setProp k v d) = insert k (fst ` set d)"
  by (induction d) auto

lemma map_of_setProp: "map_of (setProp k v d) k = Some v"
  by (induction d) auto

lemma headerLoop_keys:
  "fst ` set (fst (headerLoop hs idx fv rd rk)) = fst ` set rd \<union> mappedHeader ` set hs"
  by (induction hs arbitrary: idx rd rk) (auto simp: Let_def setProp_keys)

lemma sheetId_not_expected: "''_sheetId'' \<notin> set EXPECTED_SHEET_HEADERS"
  by code_simp

lemma mappedHeader_sheetId_self: "mappedHeader ''_sheetId'' = ''_sheetId''"
  by code_simp

lemma mappedHeader_sheetId: "mappedHeader h = ''_sheetId'' \<longleftrightarrow> h = ''_sheetId''"
proof
  assume a: "mappedHeader h = ''_sheetId''"
  show "h = ''_sheetId''"
  proof (cases "findColumnHeader h EXPECTED_SHEET_HEADERS")
    case None
    then show ?thesis using a by (simp add: mappedHeader_def)
  next
    case (Some m)
    then have "m \<in> set EXPECTED_SHEET_HEADERS" by (rule findColumnHeader_mem)
    then have "m \<noteq> ''_sheetId''" using sheetId_not_expected by auto
    then show ?thesis using a Some by (simp add: mappedHeader_def split: if_splits)
  qed
next
  assume "h = ''_sheetId''"
  then show "mappedHeader h = ''_sheetId''" by (simp only: mappedHeader_sheetId_self)
qed

lemma rowStep_sheetId:
  assumes "rowStep ex fh row = Some (k, d)" and "''_sheetId'' \<notin> set fh"
  shows "(''_sheetId'' \<in> fst ` set d \<longleftrightarrow>
            sheetIdIndex ex \<noteq> - 1 \<and> truthy (at (map stripQuotes (parseCSVRow row)) (sheetIdIndex ex)))
         \<and> (''_sheetId'' \<in> fst ` set d \<longrightarrow>
            map_of d ''_sheetId'' = at (map stripQuotes (parseCSVRow row)) (sheetIdIndex ex))"
proof -
  let ?vals = "map stripQuotes (parseCSVRow row)"
  let ?fv = "dropExcluded ex ?vals"
  let ?sid = "if sheetIdIndex ex \<noteq> - 1 then at ?vals (sheetIdIndex ex) else Some []"
  obtain rd rk where hl: "headerLoop fh 0 ?fv [] [] = (rd, rk)" by (cases "headerLoop fh 0 ?fv [] []")
  have d: "d = (if truthy ?sid then setProp ''_sheetId'' (the ?sid) rd else rd)"
    using assms(1) hl by (auto simp: rowStep_def Let_def split: if_splits)
  have ks: "fst ` set rd = mappedHeader ` set fh"
    using headerLoop_keys [of fh 0 ?fv "[]" "[]"] hl by simp
  have no: "''_sheetId'' \<notin> fst ` set rd"
  proof
    assume "''_sheetId'' \<in> fst ` set rd"
    then have "''_sheetId'' \<in> mappedHeader ` set fh" using ks by simp
    then obtain x where x: "x \<in> set fh" "mappedHeader x = ''_sheetId''"
      by (auto simp: image_iff)
    from x(2) have "x = ''_sheetId''" by (rule mappedHeader_sheetId [THEN iffD1])
    with x(1) assms(2) show False by simp
  qed
  show ?thesis
  proof (cases "truthy ?sid")
    case True
    then obtain v where v: "?sid = Some v" "v \<noteq> []" by (cases ?sid) auto
    then have "sheetIdIndex ex \<noteq> - 1" by (auto split: if_splits)
    then show ?thesis using d True v by (simp add: setProp_keys map_of_setProp)
  next
    case False
    then have "d = rd" using d by simp
    then show ?thesis using no False by auto
  qed
qed

lemma dataLoop_origin:
  "d \<in> set (dataLoop ex fh rows seen parsed) \<Longrightarrow>
   d \<in> set parsed \<or> (\<exists>row \<in> set rows. \<exists>k. rowStep ex fh row = Some (k, d))"
proof (induction rows arbitrary: seen parsed)
  case Nil
  then show ?case by simp
next
  case (Cons x xs)
  show ?case
  proof (cases "rowStep ex fh x")
    case None
    then show ?thesis using Cons.IH [of seen parsed] Cons.prems by auto
  next
    case (Some p)
    obtain k' d' where p: "p = (k', d')" by (cases p)
    show ?thesis
    proof (cases "k' \<in> seen")
      case True
      then show ?thesis using Some p Cons.IH [of seen parsed] Cons.prems by auto
    next
      case False
      then have "d \<in> set (parsed @ [d']) \<or> (\<exists>row \<in> set xs. \<exists>k. rowStep ex fh row = Some (k, d))"
        using Some p Cons.IH [of "insert k' seen" "parsed @ [d']"] Cons.prems by simp
      then show ?thesis using Some p by auto
    qed
  qed
qed

text \<open>
  C10, as stated, fails when a retained header is itself spelled \<^verbatim>\<open>_sheetId\<close>, which
  happens when an earlier header already is the sheet-id column: with the header row
  \<^verbatim>\<open>Sheet ID,_sheetId\<close> and the data row \<^verbatim>\<open>,x\<close> the sheet-id cell (position 0)
  is empty and the record still has the key \<^verbatim>\<open>_sheetId\<close>, written by the loop over
  the headers.
\<close>

theorem sheetId_key_counterexample:
  "normalizeSheet ''Sheet ID,_sheetId'' ['',x''] = ([[(''_sheetId'', ''x'')]], [''_sheetId''])
   \<and> sheetIdIndex (locate (map stripQuotes (parseCSVRow ''Sheet ID,_sheetId''))) = 0
   \<and> at (map stripQuotes (parseCSVRow '',x'')) 0 = Some []"
  by code_simp

text \<open>
  C10, amended. When no retained header is spelled \<^verbatim>\<open>_sheetId\<close>, the record of a row
  has the key \<^verbatim>\<open>_sheetId\<close> if and only if the sheet-id column was located and the
  row's value at that position is a non-empty string, and the key then holds that value;
  a row whose sheet-id cell is empty or missing gives a record without the key. Every
  record of a run is the record of one of its rows.
\<close>

theorem sheetId_key:
  "(\<forall>ex fh row k d. rowStep ex fh row = Some (k, d) \<and> ''_sheetId'' \<notin> set fh \<longrightarrow>
       (''_sheetId'' \<in> fst ` set d \<longleftrightarrow>
          sheetIdIndex ex \<noteq> - 1
          \<and> truthy (at (map stripQuotes (parseCSVRow row)) (sheetIdIndex ex)))
       \<and> (''_sheetId'' \<in> fst ` set d \<longrightarrow>
          map_of d ''_sheetId'' = at (map stripQuotes (parseCSVRow row)) (sheetIdIndex ex)))
   \<and> (\<forall>ex fh rows d. d \<in> set (dataLoop ex fh rows {} []) \<longrightarrow>
       (\<exists>row \<in> set rows. \<exists>k. rowStep ex fh row = Some (k, d)))"
proof (intro conjI allI impI)
  fix ex fh row k d
  assume a: "rowStep ex fh row = Some (k, d) \<and> ''_sheetId'' \<notin> set fh"
  note r = rowStep_sheetId [OF conjunct1 [OF a] conjunct2 [OF a]]
  show "''_sheetId'' \<in> fst ` set d \<longleftrightarrow>
          sheetIdIndex ex \<noteq> - 1
          \<and> truthy (at (map stripQuotes (parseCSVRow row)) (sheetIdIndex ex))"
    by (rule conjunct1 [OF r])
  assume m: "''_sheetId'' \<in> fst ` set d"
  show "map_of d ''_sheetId'' = at (map stripQuotes (parseCSVRow row)) (sheetIdIndex ex)"
    by (rule mp [OF conjunct2 [OF r] m])
next
  fix ex fh rows d
  assume "d \<in> set (dataLoop ex fh rows {} [])"
  then show "\<exists>row \<in> set rows. \<exists>k. rowStep ex fh row = Some (k, d)"
    using dataLoop_origin [of d ex fh rows "{}" "[]"] by simp
qed

theorem sheetId_key_witness:
  "rowStep \<lparr>emailTemplateIndex = - 1, idColumnIndex = - 1, sheetIdIndex = 1\<rparr>
       [''Name'', ''Budget''] ''Foo,,10''
     = Some (''Foo10'', [(''Name'', ''Foo''), (''Budget'', ''10'')])
   \<and> ''_sheetId'' \<notin> set [''Name'', ''Budget'']
   \<and> (''_sheetId'' \<in> fst ` set [(''Name'', ''Foo''), (''Budget'', ''10'')] \<longleftrightarrow>
        sheetIdIndex \<lparr>emailTemplateIndex = - 1, idColumnIndex = - 1, sheetIdIndex = 1\<rparr> \<noteq> - 1
        \<and> truthy (at (map stripQuotes (parseCSVRow ''Foo,,10''))
             (sheetIdIndex \<lparr>emailTemplateIndex = - 1, idColumnIndex = - 1, sheetIdIndex = 1\<rparr>)))
   \<and> at (map stripQuotes (parseCSVRow ''Foo,,10'')) 1 = Some []
   \<and> rowStep \<lparr>emailTemplateIndex = - 1, idColumnIndex = - 1, sheetIdIndex = 1\<rparr>
       [''Name'', ''Budget''] ''Foo,id1,10''
     = Some (''Foo10'', [(''Name'', ''Foo''), (''Budget'', ''10''), (''_sheetId'', ''id1'')])
   \<and> ''_sheetId'' \<in> fst ` set [(''Name'', ''Foo''), (''Budget'', ''10''), (''_sheetId'', ''id1'')]
   \<and> map_of [(''Name'', ''Foo''), (''Budget'', ''10''), (''_sheetId'', ''id1'')] ''_sheetId''
       = at (map stripQuotes (parseCSVRow ''Foo,id1,10''))
           (sheetIdIndex \<lparr>emailTemplateIndex = - 1, idColumnIndex = - 1, sheetIdIndex = 1\<rparr>)
   \<and> [(''Name'', ''Foo''), (''Budget'', ''10''), (''_sheetId'', ''id1'')]
       \<in> set (dataLoop \<lparr>emailTemplateIndex = - 1, idColumnIndex = - 1, sheetIdIndex = 1\<rparr>
                 [''Name'', ''Budget''] [''Foo,id1,10''] {} [])
   \<and> (\<exists>row \<in> set [''Foo,id1,10'']. \<exists>k.
         rowStep \<lparr>emailTemplateIndex = - 1, idColumnIndex = - 1, sheetIdIndex = 1\<rparr>
           [''Name'', ''Budget''] row
         = Some (k, [(''Name'', ''Foo''), (''Budget'', ''10''), (''_sheetId'', ''id1'')]))"
proof -
  define ex where "ex = \<lparr>emailTemplateIndex = - 1, idColumnIndex = - 1, sheetIdIndex = 1\<rparr>"
  define fh where "fh = [''Name'', ''Budget'']"
  define d0 where "d0 = [(''Name'', ''Foo''), (''Budget'', ''10'')]"
  define d1 where "d1 = [(''Name'', ''Foo''), (''Budget'', ''10''), (''_sheetId'', ''id1'')]"
  note th = sheetId_key
  have rs0: "rowStep ex fh ''Foo,,10'' = Some (''Foo10'', d0)"
    unfolding ex_def fh_def d0_def by code_simp
  have rs1: "rowStep ex fh ''Foo,id1,10'' = Some (''Foo10'', d1)"
    unfolding ex_def fh_def d1_def by code_simp
  have nf: "''_sheetId'' \<notin> set fh" unfolding fh_def by simp
  have c: "at (map stripQuotes (parseCSVRow ''Foo,,10'')) 1 = Some []" by code_simp
  have a0: "''_sheetId'' \<in> fst ` set d0 \<longleftrightarrow>
          sheetIdIndex ex \<noteq> - 1
          \<and> truthy (at (map stripQuotes (parseCSVRow ''Foo,,10'')) (sheetIdIndex ex))"
    by (rule conjunct1 [OF th [THEN conjunct1, rule_format, OF conjI [OF rs0 nf]]])
  have m1: "''_sheetId'' \<in> fst ` set d1" unfolding d1_def by simp
  have a1: "map_of d1 ''_sheetId''
              = at (map stripQuotes (parseCSVRow ''Foo,id1,10'')) (sheetIdIndex ex)"
    by (rule mp [OF conjunct2 [OF th [THEN conjunct1, rule_format, OF conjI [OF rs1 nf]]] m1])
  have mem: "d1 \<in> set (dataLoop ex fh [''Foo,id1,10''] {} [])"
    unfolding ex_def fh_def d1_def by code_simp
  have a2: "\<exists>row \<in> set [''Foo,id1,10'']. \<exists>k. rowStep ex fh row = Some (k, d1)"
    by (rule th [THEN conjunct2, rule_format, OF mem])
  show ?thesis
    using rs0 nf a0 c rs1 m1 a1 mem a2 unfolding ex_def fh_def d0_def d1_def
    by (intro conjI) assumption+
qed

end
